theory Spec2Isabelle
  imports Complex_Main "HOL-Library.Sublist"
begin

section \<open>Python strings\<close>

text \<open>
  A Python \<open>str\<close> is modelled as a \<open>string\<close> in which every \<open>char\<close> stands for one
  character of the Python string, so that \<open>length\<close> is Python's \<open>len\<close>. The model covers
  the characters with code points below 256; \<open>is_space\<close> and \<open>lower_char\<close> are Python's
  \<open>str.isspace\<close> and \<open>str.lower\<close> on that range.
\<close>

definition is_space :: "char \<Rightarrow> bool" where
  "is_space c =
     (let n = (of_char c :: nat)
      in (9 \<le> n \<and> n \<le> 13) \<or> (28 \<le> n \<and> n \<le> 32) \<or> n = 133 \<or> n = 160)"

definition lower_char :: "char \<Rightarrow> char" where
  "lower_char c =
     (let n = (of_char c :: nat)
      in if (65 \<le> n \<and> n \<le> 90) \<or> (192 \<le> n \<and> n \<le> 222 \<and> n \<noteq> 215)
         then char_of (n + 32) else c)"

definition py_lower :: "string \<Rightarrow> string" where
  "py_lower s = map lower_char s"

definition py_strip :: "string \<Rightarrow> string" where
  "py_strip s = rev (dropWhile is_space (rev (dropWhile is_space s)))"

text \<open>
  \<open>s.split()\<close> without a separator: the maximal runs of non-whitespace characters, in
  order. The first argument is the word being read, reversed.
\<close>

fun split_ws_from :: "string \<Rightarrow> string \<Rightarrow> string list" where
  "split_ws_from w [] = (if w = [] then [] else [rev w])"
| "split_ws_from w (c # cs) =
     (if is_space c
      then (if w = [] then split_ws_from [] cs else rev w # split_ws_from [] cs)
      else split_ws_from (c # w) cs)"

definition py_split_ws :: "string \<Rightarrow> string list" where
  "py_split_ws s = split_ws_from [] s"

definition py_startswith :: "string \<Rightarrow> string \<Rightarrow> bool" where
  "py_startswith s p = (take (length p) s = p)"

text \<open>\<open>py_in sub s\<close> is Python's \<open>sub in s\<close> on strings.\<close>

fun py_in :: "string \<Rightarrow> string \<Rightarrow> bool" where
  "py_in sub [] = (sub = [])"
| "py_in sub (c # cs) = (py_startswith (c # cs) sub \<or> py_in sub cs)"

text \<open>
  \<open>s.split(sep)\<close> for a non-empty separator: the occurrences of \<open>sep\<close> are found from
  left to right and do not overlap. The second argument is the piece being read, reversed.
  Every call in the source passes a non-empty literal separator.
\<close>

function split_from :: "string \<Rightarrow> string \<Rightarrow> string \<Rightarrow> string list" where
  "split_from sep w [] = [rev w]"
| "split_from sep w (c # cs) =
     (if sep \<noteq> [] \<and> py_startswith (c # cs) sep
      then rev w # split_from sep [] (drop (length sep) (c # cs))
      else split_from sep (c # w) cs)"
  by pat_completeness auto
termination
  by (relation "measure (\<lambda>(sep, w, s). length s)") auto

definition py_split :: "string \<Rightarrow> string \<Rightarrow> string list" where
  "py_split s sep = split_from sep [] s"

definition py_join :: "string \<Rightarrow> string list \<Rightarrow> string" where
  "py_join sep xs = (case xs of [] \<Rightarrow> [] | y # ys \<Rightarrow> y @ concat (map (\<lambda>z. sep @ z) ys))"

text \<open>Decimal rendering of an integer, as an f-string does it.\<close>

definition digit_char :: "nat \<Rightarrow> char" where
  "digit_char d = char_of (48 + d)"

function str_nat :: "nat \<Rightarrow> string" where
  "str_nat n = (if n < 10 then [digit_char n] else str_nat (n div 10) @ [digit_char (n mod 10)])"
  by pat_completeness auto
termination
  by (relation "measure (\<lambda>n. n)") auto

definition py_str :: "int \<Rightarrow> string" where
  "py_str i = (if i < 0 then CHR ''-'' # str_nat (nat (- i)) else str_nat (nat i))"

section \<open>Python lists and sets\<close>

text \<open>\<open>py_prefix xs n\<close> is the slice \<open>xs[:n]\<close>; a negative \<open>n\<close> counts from the end.\<close>

definition py_prefix :: "'a list \<Rightarrow> int \<Rightarrow> 'a list" where
  "py_prefix xs n = (if 0 \<le> n then take (nat n) xs else take (length xs - nat (- n)) xs)"

text \<open>
  \<open>list(set(xs))\<close>: every element of \<open>xs\<close> once, in the iteration order of the hash set,
  which the language leaves open. The order is a parameter: a rank of the elements, by which
  the distinct elements are sorted. Every order of the elements of one list arises from
  some rank.
\<close>

definition list_of_set :: "('a \<Rightarrow> nat) \<Rightarrow> 'a list \<Rightarrow> 'a list" where
  "list_of_set rank xs = sort_key rank (remdups xs)"

section \<open>Exceptions\<close>

text \<open>
  The exceptions of the program as values. \<open>PyException\<close> is an instance of the built-in
  class \<open>Exception\<close> itself, raised by the source with a message; \<open>ValueError\<close> is the
  built-in subclass. \<open>LibraryError c\<close> is an exception of class \<open>c\<close> raised inside a
  library call (the browser driver, the page parser, the language-model client); all of
  them are subclasses of \<open>Exception\<close>, so every \<open>except Exception\<close> and every bare
  \<open>except\<close> of the source catches each value of this type.
\<close>

datatype error = PyException string | ValueError string | LibraryError string

fun class_name :: "error \<Rightarrow> string" where
  "class_name (PyException m) = ''Exception''"
| "class_name (ValueError m) = ''ValueError''"
| "class_name (LibraryError c) = c"

section \<open>Keyword extraction (gemini\_keyword\_extractor.py)\<close>

definition stop_words :: "string set" where
  "stop_words = {''the'', ''a'', ''an'', ''and'', ''or'', ''but'', ''in'', ''on'', ''at'',
                 ''to'', ''for'', ''of'', ''with'', ''by'', ''i'', ''want'', ''leads'',
                 ''they'', ''are'', ''doing''}"

definition fallback_extraction :: "string \<Rightarrow> string list" where
  "fallback_extraction prompt =
     (let words = py_split_ws (py_lower prompt);
          keywords = filter (\<lambda>w. w \<notin> stop_words \<and> length w > 2) words
      in if keywords \<noteq> [] then take 7 keywords else [''business'', ''professional''])"

text \<open>
  \<open>extract_keywords\<close>: the first argument is what the call of the language-model service
  and the read of \<open>response.text\<close> give, \<open>Inl\<close> when either raises.
\<close>

definition extract_keywords :: "error + string \<Rightarrow> string \<Rightarrow> string list" where
  "extract_keywords response prompt =
     (case response of
        Inl e \<Rightarrow> fallback_extraction prompt
      | Inr text \<Rightarrow>
          (let keywords_text = py_strip text;
               keywords = map py_strip
                 (filter (\<lambda>kw. py_strip kw \<noteq> []) (py_split keywords_text '',''))
           in take 7 (if keywords = [] then fallback_extraction prompt else keywords)))"

section \<open>The scraper (linkedin\_scraper.py)\<close>

subsection \<open>Construction\<close>

record scraper =
  linkedin_email :: string
  linkedin_password :: string

text \<open>
  An argument that may be \<open>None\<close> is a \<open>string option\<close>. \<open>py_or a b\<close> is \<open>a or b\<close>:
  \<open>a\<close> when it is truthy (neither \<open>None\<close> nor the empty string), else \<open>b\<close>.
\<close>

definition falsy :: "string option \<Rightarrow> bool" where
  "falsy x = (x = None \<or> x = Some [])"

definition py_or :: "string option \<Rightarrow> string option \<Rightarrow> string option" where
  "py_or a b = (if falsy a then b else a)"

text \<open>\<open>__init__\<close>; \<open>getenv\<close> is the process environment.\<close>

definition scraper_init ::
  "string option \<Rightarrow> string option \<Rightarrow> (string \<Rightarrow> string option) \<Rightarrow> error + scraper" where
  "scraper_init email password getenv =
     (let e = py_or email (getenv ''LINKEDIN_EMAIL'');
          p = py_or password (getenv ''LINKEDIN_PASSWORD'')
      in case (e, p) of
           (Some e', Some p') \<Rightarrow>
             if falsy e \<or> falsy p
             then Inl (ValueError
               ''LINKEDIN_EMAIL and LINKEDIN_PASSWORD must be provided or set in environment variables'')
             else Inr \<lparr>linkedin_email = e', linkedin_password = p'\<rparr>
         | _ \<Rightarrow> Inl (ValueError
               ''LINKEDIN_EMAIL and LINKEDIN_PASSWORD must be provided or set in environment variables''))"

subsection \<open>Search pagination\<close>

text \<open>
  What the parser sees in one rendered search page: \<open>anchors\<close> is the \<open>href\<close> of every
  \<open>a\<close> element that has one, in document order; \<open>entities\<close> has one entry for every
  \<open>div\<close> with the attribute \<open>data-chameleon-result-urn\<close>, the \<open>href\<close> of the first
  \<open>a\<close> element with an \<open>href\<close> inside it, if there is one.
\<close>

record page =
  anchors :: "string list"
  entities :: "string option list"

text \<open>Strategy 1, the normalisation of one \<open>href\<close>; \<open>None\<close> is \<open>continue\<close>.\<close>

definition anchor_url :: "string \<Rightarrow> string option" where
  "anchor_url href =
     (if py_in ''/in/'' href \<and> py_in ''linkedin.com'' href
      then (if py_startswith href ''/'' then Some (''https://www.linkedin.com'' @ href)
            else if py_in ''linkedin.com'' href then Some (hd (py_split href ''?''))
            else None)
      else None)"

definition scan_anchors :: "string list \<Rightarrow> string list \<Rightarrow> string list \<Rightarrow> string list" where
  "scan_anchors profile_urls hrefs page_urls =
     fold (\<lambda>href page_urls.
             case anchor_url href of
               None \<Rightarrow> page_urls
             | Some full_url \<Rightarrow>
                 if py_in ''/in/'' full_url \<and> full_url \<notin> set profile_urls
                    \<and> full_url \<notin> set page_urls
                 then page_urls @ [full_url] else page_urls)
          hrefs page_urls"

text \<open>Strategy 2, the normalisation of the link of one result container.\<close>

definition entity_url :: "string \<Rightarrow> string" where
  "entity_url href =
     hd (py_split (if py_startswith href ''http'' then href
                   else ''https://www.linkedin.com'' @ href) ''?'')"

definition scan_entities ::
  "string list \<Rightarrow> string option list \<Rightarrow> string list \<Rightarrow> string list" where
  "scan_entities profile_urls links page_urls =
     fold (\<lambda>link page_urls.
             case link of
               None \<Rightarrow> page_urls
             | Some href \<Rightarrow>
                 if py_in ''/in/'' href
                 then (let full_url = entity_url href
                       in if full_url \<notin> set profile_urls \<and> full_url \<notin> set page_urls
                          then page_urls @ [full_url] else page_urls)
                 else page_urls)
          links page_urls"

text \<open>The list \<open>page_urls\<close> of one page, given the URLs collected so far.\<close>

definition page_urls_of :: "string list \<Rightarrow> page \<Rightarrow> string list" where
  "page_urls_of profile_urls pg =
     scan_entities profile_urls (entities pg) (scan_anchors profile_urls (anchors pg) [])"

text \<open>\<open>for url in page_urls: if url not in profile_urls: profile_urls.append(url)\<close>\<close>

definition add_unique :: "string list \<Rightarrow> string list \<Rightarrow> string list" where
  "add_unique profile_urls page_urls =
     fold (\<lambda>url acc. if url \<notin> set acc then acc @ [url] else acc) page_urls profile_urls"

definition base_url :: "string list \<Rightarrow> string" where
  "base_url keywords =
     ''https://www.linkedin.com/search/results/people/?keywords='' @ py_join ''%20'' keywords"

definition search_url :: "string list \<Rightarrow> int \<Rightarrow> string" where
  "search_url keywords page =
     (if page = 0 then base_url keywords
      else base_url keywords @ ''&page='' @ py_str (page + 1))"

definition max_pages :: "int \<Rightarrow> int" where
  "max_pages limit = limit div 10 + 2"

text \<open>
  One entry for every pass through the body of the \<open>while\<close> loop: the page counter, the
  URL that was requested, \<open>profile_urls\<close> as it was before the page, and what the page
  gave: \<open>Inr page_urls\<close>, or \<open>Inl\<close> when the navigation, a scroll or the read of the
  page source raised.
\<close>

record visit =
  page_no :: int
  requested :: string
  known :: "string list"
  outcome :: "error + string list"

text \<open>
  The loop of \<open>_search_profiles\<close>. \<open>fetch url\<close> is what the browser gives for the
  request of \<open>url\<close> followed by the scrolls and the read of the page source. The result
  is the list of visits and \<open>profile_urls\<close> at the exit of the loop, or the exception
  that left it.
\<close>

function search_loop ::
  "(string \<Rightarrow> error + page) \<Rightarrow> string list \<Rightarrow> int \<Rightarrow> int \<Rightarrow> string list \<Rightarrow> int
     \<Rightarrow> visit list \<times> (error + string list)" where
  "search_loop fetch keywords limit mx profile_urls page =
     (if int (length profile_urls) < limit \<and> page < mx
      then (case fetch (search_url keywords page) of
              Inl e \<Rightarrow>
                ([\<lparr>page_no = page, requested = search_url keywords page,
                   known = profile_urls, outcome = Inl e\<rparr>], Inl e)
            | Inr pg \<Rightarrow>
                (let page_urls = page_urls_of profile_urls pg;
                     v = \<lparr>page_no = page, requested = search_url keywords page,
                          known = profile_urls, outcome = Inr page_urls\<rparr>;
                     profile_urls' = add_unique profile_urls page_urls
                 in if length page_urls = 0 then ([v], Inr profile_urls')
                    else (let (vs, r) = search_loop fetch keywords limit mx profile_urls' (page + 1)
                          in (v # vs, r))))
      else ([], Inr profile_urls))"
  by pat_completeness auto
termination
  by (relation "measure (\<lambda>(fetch, keywords, limit, mx, profile_urls, page). nat (mx - page))") auto

text \<open>
  \<open>_search_profiles\<close>: the loop inside \<open>try\<close>; the handler of \<open>except Exception\<close>
  returns the empty list. The first component is the list of visits.
\<close>

definition search_profiles ::
  "(string \<Rightarrow> error + page) \<Rightarrow> (string \<Rightarrow> nat) \<Rightarrow> string list \<Rightarrow> int
     \<Rightarrow> visit list \<times> (error + string list)" where
  "search_profiles fetch rank keywords limit =
     (let (vs, r) = search_loop fetch keywords limit (max_pages limit) [] 0
      in case r of
           Inl e \<Rightarrow> (vs, Inr [])
         | Inr profile_urls \<Rightarrow> (vs, Inr (py_prefix (list_of_set rank profile_urls) limit)))"

subsection \<open>Profile extraction\<close>

record profile_record =
  name :: string
  title :: string
  company :: string
  location :: string

text \<open>
  What the browser gives on one profile page. A lookup of one element followed by the
  read of its text is an \<open>error + string\<close>, \<open>Inl\<close> when the lookup or the read raises.
  A lookup of a list of elements is an \<open>error + (error + string) list\<close>: it raises, or
  gives the elements, each of which has a text or raises when its text is read.
  \<^item> \<open>loaded\<close>: the navigation to the page and the two scrolls;
  \<^item> \<open>heading\<close>: the wait for the first \<open>h1\<close>; \<open>heading_xlarge\<close>: \<open>h1.text-heading-xlarge\<close>;
  \<^item> \<open>headline\<close>: \<open>div.text-body-medium.break-words\<close>; \<open>headline_alt\<close>:
    \<open>div.text-body-medium\<close>;
  \<^item> \<open>small_text\<close>: the elements matching a CSS selector of the location search;
  \<^item> \<open>experience_links\<close>: the scroll, the lookup of the experience section and of the
    links inside it; \<open>experience_spans\<close>: the second lookup of the section and of the
    spans inside it.
\<close>

record profile_page =
  loaded :: "error option"
  heading :: "error + string"
  heading_xlarge :: "error + string"
  headline :: "error + string"
  headline_alt :: "error + string"
  small_text :: "string \<Rightarrow> error + (error + string) list"
  experience_links :: "error + (error + string) list"
  experience_spans :: "error + (error + string) list"

definition location_selectors :: "string list" where
  "location_selectors =
     [''span.text-body-small.inline.t-black--light.break-words'',
      ''div.text-body-small.inline.t-black--light.break-words'',
      ''span.text-body-small'',
      ''div.text-body-small'',
      ''span[class*='' @ [CHR 0x27] @ ''text-body-small'' @ [CHR 0x27] @ ''][class*=''
        @ [CHR 0x27] @ ''t-black--light'' @ [CHR 0x27] @ '']'']"

definition location_words :: "string list" where
  "location_words =
     [''uae'', ''dubai'', ''abu dhabi'', ''sharjah'', ''emirates'', ''saudi'', ''qatar'',
      ''kuwait'', ''bahrain'', ''oman'', ''india'', ''pakistan'', ''bangladesh'',
      ''singapore'', ''malaysia'', ''thailand'', ''indonesia'', ''philippines'',
      ''london'', ''new york'', ''california'', ''texas'', ''toronto'', ''sydney'',
      ''melbourne'', ''united arab'', ''united states'', ''united kingdom'',
      ''city'', ''region'', ''area'', ''state'', ''province'', ''country'']"

definition looks_like_location :: "string \<Rightarrow> string \<Rightarrow> string \<Rightarrow> bool" where
  "looks_like_location text name_text title_text =
     (text \<noteq> [] \<and> length text > 2 \<and> length text < 100
      \<and> text \<noteq> name_text \<and> text \<noteq> title_text
      \<and> (py_in '','' text \<or> (\<exists>word \<in> set location_words. py_in word (py_lower text))))"

text \<open>
  The inner loop over the elements of one selector: \<open>Inl\<close> when the read of a text raises,
  \<open>Inr (Some text)\<close> at the first text that looks like a location, \<open>Inr None\<close> when the
  elements are exhausted.
\<close>

fun scan_elems :: "string \<Rightarrow> string \<Rightarrow> (error + string) list \<Rightarrow> error + string option" where
  "scan_elems name_text title_text [] = Inr None"
| "scan_elems name_text title_text (Inl e # elems) = Inl e"
| "scan_elems name_text title_text (Inr raw # elems) =
     (let text = py_strip raw
      in if looks_like_location text name_text title_text then Inr (Some text)
         else scan_elems name_text title_text elems)"

text \<open>
  The loop over the selectors. An exception inside the body is caught and the loop goes on
  with the next selector; the loop is left when \<open>location\<close> is no longer the sentinel.
\<close>

fun find_location ::
  "(string \<Rightarrow> error + (error + string) list) \<Rightarrow> string \<Rightarrow> string \<Rightarrow> string list \<Rightarrow> string" where
  "find_location lookup name_text title_text [] = ''N/A''"
| "find_location lookup name_text title_text (selector # selectors) =
     (case lookup selector of
        Inl e \<Rightarrow> find_location lookup name_text title_text selectors
      | Inr elems \<Rightarrow>
          (case scan_elems name_text title_text elems of
             Inl e \<Rightarrow> find_location lookup name_text title_text selectors
           | Inr None \<Rightarrow> find_location lookup name_text title_text selectors
           | Inr (Some text) \<Rightarrow>
               if text \<noteq> ''N/A'' then text
               else find_location lookup name_text title_text selectors))"

text \<open>
  \<open>if xs: company = xs[0].text.strip()\<close> after the lookup of \<open>xs\<close>: \<open>Inl\<close> when the
  lookup or the read raises, \<open>Inr None\<close> when the list is empty.
\<close>

definition first_text :: "error + (error + string) list \<Rightarrow> error + string option" where
  "first_text r =
     (case r of
        Inl e \<Rightarrow> Inl e
      | Inr [] \<Rightarrow> Inr None
      | Inr (Inl e # elems) \<Rightarrow> Inl e
      | Inr (Inr raw # elems) \<Rightarrow> Inr (Some (py_strip raw)))"

definition experience_company :: "profile_page \<Rightarrow> string \<Rightarrow> string" where
  "experience_company pg company_text =
     (if company_text = ''N/A''
      then (case first_text (experience_links pg) of
              Inr None \<Rightarrow> company_text
            | Inr (Some c) \<Rightarrow> c
            | Inl e \<Rightarrow>
                (case first_text (experience_spans pg) of
                   Inr None \<Rightarrow> company_text
                 | Inr (Some c) \<Rightarrow> c
                 | Inl e' \<Rightarrow> company_text))
      else company_text)"

text \<open>\<open>or_na x\<close> is \<open>x if x else "N/A"\<close>.\<close>

definition or_na :: "string \<Rightarrow> string" where
  "or_na x = (if x \<noteq> [] then x else ''N/A'')"

text \<open>The body of the outer \<open>try\<close> of \<open>_scrape_profile\<close>.\<close>

definition scrape_profile_try :: "profile_page \<Rightarrow> error + profile_record" where
  "scrape_profile_try pg =
     (case loaded pg of
        Some e \<Rightarrow> Inl e
      | None \<Rightarrow>
          (let name_text =
                 (case heading pg of
                    Inr raw \<Rightarrow> py_strip raw
                  | Inl e \<Rightarrow> (case heading_xlarge pg of
                                 Inr raw \<Rightarrow> py_strip raw
                               | Inl e' \<Rightarrow> ''N/A''));
               title_text =
                 (case headline pg of
                    Inr raw \<Rightarrow> py_strip raw
                  | Inl e \<Rightarrow> (case headline_alt pg of
                                 Inr raw \<Rightarrow> py_strip raw
                               | Inl e' \<Rightarrow> ''N/A''));
               company_text =
                 (if py_in '' at '' title_text
                  then py_strip (last (py_split title_text '' at ''))
                  else ''N/A'');
               location_text =
                 find_location (small_text pg) name_text title_text location_selectors;
               company_text' = experience_company pg company_text
           in Inr \<lparr>name = or_na name_text,
                    title = or_na title_text,
                    company = or_na company_text',
                    location = or_na location_text\<rparr>))"

text \<open>\<open>_scrape_profile\<close>: the handler of the outer \<open>try\<close> returns the record of sentinels.\<close>

definition scrape_profile :: "profile_page \<Rightarrow> error + profile_record" where
  "scrape_profile pg =
     (case scrape_profile_try pg of
        Inl e \<Rightarrow> Inr \<lparr>name = ''N/A'', title = ''N/A'', company = ''N/A'', location = ''N/A''\<rparr>
      | Inr r \<Rightarrow> Inr r)"

subsection \<open>The job\<close>

text \<open>
  What the surroundings of one job do:
  \<^item> \<open>service_error\<close>: the exception that leaves \<open>_get_chrome_service\<close>, if one does;
  \<^item> \<open>chrome_error\<close>: the exception that leaves the construction of the browser driver;
  \<^item> \<open>initial_url\<close>: the read of \<open>current_url\<close> that is logged after the construction;
  \<^item> \<open>login_form\<close>: the exception, if any, of the navigation to the login page, the
    lookups of the fields and the button, the typing and the click;
  \<^item> \<open>login_url\<close>, \<open>login_url_again\<close>: the two reads of \<open>current_url\<close> in the check
    after the wait;
  \<^item> \<open>search_page\<close>: the search pages by URL; \<open>set_rank\<close>: the iteration order of the
    set of URLs; \<open>profile_at\<close>: the profile pages by URL.
  Closing the driver and writing the log do not raise.
\<close>

record browser =
  service_error :: "error option"
  chrome_error :: "error option"
  initial_url :: "error + string"
  login_form :: "error option"
  login_url :: "error + string"
  login_url_again :: "error + string"
  search_page :: "string \<Rightarrow> error + page"
  set_rank :: "string \<Rightarrow> nat"
  profile_at :: "string \<Rightarrow> profile_page"

text \<open>\<open>_login\<close>: every exception inside is caught and gives \<open>False\<close>.\<close>

definition login :: "browser \<Rightarrow> bool" where
  "login env =
     (case login_form env of
        Some e \<Rightarrow> False
      | None \<Rightarrow>
          (case login_url env of
             Inl e \<Rightarrow> False
           | Inr url \<Rightarrow>
               if py_in ''feed'' url then True
               else (case login_url_again env of
                       Inl e \<Rightarrow> False
                     | Inr url' \<Rightarrow> py_in ''linkedin.com/in/'' url')))"

text \<open>The calls of a job that the properties below count.\<close>

datatype call = NewDriver | LoginCall | SearchCall | ProfileCall string | QuitCall

text \<open>The loop over the profile URLs: the calls made and the records, or the exception.\<close>

fun scrape_each :: "browser \<Rightarrow> string list \<Rightarrow> call list \<times> (error + profile_record list)" where
  "scrape_each env [] = ([], Inr [])"
| "scrape_each env (url # urls) =
     (case scrape_profile (profile_at env url) of
        Inl e \<Rightarrow> ([ProfileCall url], Inl e)
      | Inr profile_data \<Rightarrow>
          (let (cs, r) = scrape_each env urls
           in (ProfileCall url # cs,
               case r of Inl e \<Rightarrow> Inl e | Inr profiles \<Rightarrow> Inr (profile_data # profiles))))"

text \<open>
  The \<open>try\<close> block of \<open>_scrape\<close>: whether the variable \<open>driver\<close> holds a driver at the
  exit, the result (\<open>Inl\<close> the exception that is raised again, \<open>Inr\<close> the list that is
  returned), and the calls made. The browser options, and with them the parameter
  \<open>headless\<close>, are left out: building them calls neither the browser nor the network and
  does not raise. The thread pool that runs \<open>_scrape\<close> has one worker and hands its result
  or its exception to the caller unchanged.
\<close>

definition scrape_try ::
  "browser \<Rightarrow> string list \<Rightarrow> int \<Rightarrow> bool \<times> (error + profile_record list) \<times> call list" where
  "scrape_try env keywords limit =
     (case service_error env of
        Some e \<Rightarrow> (False, Inl e, [])
      | None \<Rightarrow>
     (case chrome_error env of
        Some e \<Rightarrow> (False, Inl e, [])
      | None \<Rightarrow>
     (case initial_url env of
        Inl e \<Rightarrow> (True, Inl e, [NewDriver])
      | Inr url \<Rightarrow>
     (if \<not> login env
      then (True, Inl (PyException ''Failed to login to LinkedIn''), [NewDriver, LoginCall])
      else
     (case snd (search_profiles (search_page env) (set_rank env) keywords limit) of
        Inl e \<Rightarrow> (True, Inl e, [NewDriver, LoginCall, SearchCall])
      | Inr profile_urls \<Rightarrow>
          if profile_urls = [] then (True, Inr [], [NewDriver, LoginCall, SearchCall])
          else (let (cs, r) = scrape_each env (py_prefix profile_urls limit)
                in (True, r, [NewDriver, LoginCall, SearchCall] @ cs)))))))"

text \<open>
  \<open>_scrape\<close>: the \<open>finally\<close> clause closes the driver if the variable holds one. The
  job ends in the state DONE with \<open>Inr\<close> the records, or in FAILED with \<open>Inl\<close> the
  exception; the second component is the list of calls of the job.
\<close>

definition scrape ::
  "browser \<Rightarrow> string list \<Rightarrow> int \<Rightarrow> (error + profile_record list) \<times> call list" where
  "scrape env keywords limit =
     (let (driver, r, cs) = scrape_try env keywords limit
      in (r, if driver then cs @ [QuitCall] else cs))"

subsection \<open>Notions used in the properties\<close>

text \<open>The visit that the loop records at page \<open>p\<close>.\<close>

definition mk_visit :: "string list \<Rightarrow> int \<Rightarrow> string list \<Rightarrow> error + string list \<Rightarrow> visit" where
  "mk_visit k p us out = \<lparr>page_no = p, requested = search_url k p, known = us, outcome = out\<rparr>"

text \<open>The URLs that the two strategies derive from the links of a page.\<close>

definition anchor_candidates :: "string list \<Rightarrow> string set" where
  "anchor_candidates hrefs = {u. \<exists>h \<in> set hrefs. anchor_url h = Some u \<and> py_in ''/in/'' u}"

definition entity_candidates :: "string option list \<Rightarrow> string set" where
  "entity_candidates links = {u. \<exists>h. Some h \<in> set links \<and> py_in ''/in/'' h \<and> u = entity_url h}"

fun is_profile_call :: "call \<Rightarrow> bool" where
  "is_profile_call (ProfileCall url) = True"
| "is_profile_call c = False"

section \<open>Example pages and environments\<close>

text \<open>A profile page that does not load, one with data, and one where every lookup fails.\<close>

definition page_down :: profile_page where
  "page_down =
     \<lparr>loaded = Some (LibraryError ''WebDriverException''),
      heading = Inr ''x'', heading_xlarge = Inr ''x'', headline = Inr ''x'',
      headline_alt = Inr ''x'', small_text = (\<lambda>sel. Inr []),
      experience_links = Inr [], experience_spans = Inr []\<rparr>"

definition page_jane :: profile_page where
  "page_jane =
     \<lparr>loaded = None,
      heading = Inr ''  Jane Doe '',
      heading_xlarge = Inl (LibraryError ''NoSuchElementException''),
      headline = Inl (LibraryError ''NoSuchElementException''),
      headline_alt = Inr ''Chef at Food Co'',
      small_text = (\<lambda>sel. if sel = ''span.text-body-small''
                            then Inr [Inr ''Jane Doe'', Inr '' Dubai, UAE '']
                            else Inl (LibraryError ''InvalidSelectorException'')),
      experience_links = Inr [], experience_spans = Inr []\<rparr>"

definition page_bare :: profile_page where
  "page_bare =
     \<lparr>loaded = None,
      heading = Inl (LibraryError ''TimeoutException''),
      heading_xlarge = Inl (LibraryError ''NoSuchElementException''),
      headline = Inl (LibraryError ''NoSuchElementException''),
      headline_alt = Inl (LibraryError ''NoSuchElementException''),
      small_text = (\<lambda>sel. Inl (LibraryError ''NoSuchElementException'')),
      experience_links = Inl (LibraryError ''NoSuchElementException''),
      experience_spans = Inl (LibraryError ''NoSuchElementException'')\<rparr>"

text \<open>
  Search pages: one with two results, given as absolute links with a query string; one
  without results; one whose only result is a relative link inside a result container.
\<close>

definition results_two :: page where
  "results_two =
     \<lparr>anchors = [''https://www.linkedin.com/feed/'',
                  ''https://www.linkedin.com/in/jane-doe?miniProfileUrn=1'',
                  ''https://www.linkedin.com/in/omar-k?miniProfileUrn=2'',
                  ''https://www.linkedin.com/in/jane-doe?miniProfileUrn=1''],
      entities = [Some ''https://www.linkedin.com/in/jane-doe?miniProfileUrn=1'',
                   Some ''https://www.linkedin.com/in/omar-k?miniProfileUrn=2'']\<rparr>"

definition results_none :: page where
  "results_none = \<lparr>anchors = [''https://www.linkedin.com/feed/''], entities = []\<rparr>"

definition results_relative :: page where
  "results_relative =
     \<lparr>anchors = [''/in/john?trk=linkedin.com''],
      entities = [Some ''/in/john?trk=linkedin.com'']\<rparr>"

text \<open>
  A job in which every step succeeds: each search page shows the same two results. The
  variants fail to resolve the driver, fail the login check, and find nothing.
\<close>

definition env_ok :: browser where
  "env_ok =
     \<lparr>service_error = None, chrome_error = None, initial_url = Inr ''data:,'',
      login_form = None,
      login_url = Inr ''https://www.linkedin.com/feed/'',
      login_url_again = Inr ''https://www.linkedin.com/feed/'',
      search_page = (\<lambda>url. Inr results_two),
      set_rank = (\<lambda>url. 0),
      profile_at = (\<lambda>url. page_jane)\<rparr>"

definition env_no_driver :: browser where
  "env_no_driver = env_ok\<lparr>service_error := Some (PyException ''ChromeDriver not found'')\<rparr>"

definition env_no_chrome :: browser where
  "env_no_chrome = env_ok\<lparr>chrome_error := Some (LibraryError ''SessionNotCreatedException'')\<rparr>"

definition env_login_fail :: browser where
  "env_login_fail =
     env_ok\<lparr>login_url := Inr ''https://www.linkedin.com/checkpoint/challenge'',
            login_url_again := Inr ''https://www.linkedin.com/checkpoint/challenge''\<rparr>"

definition env_empty :: browser where
  "env_empty = env_ok\<lparr>search_page := (\<lambda>url. Inr results_none)\<rparr>"

section \<open>Lemmas on profile extraction\<close>

lemma or_na_nonempty: "or_na x \<noteq> []"
  by (simp add: or_na_def)

lemma find_location_all_fail:
  "\<forall>sel \<in> set sels. isl (lookup sel) \<Longrightarrow> find_location lookup n t sels = ''N/A''"
  by (induction sels) (auto split: sum.splits)

lemma scrape_profile_try_fields:
  "scrape_profile_try pg = Inr r \<Longrightarrow>
     name r \<noteq> [] \<and> title r \<noteq> [] \<and> company r \<noteq> [] \<and> location r \<noteq> []"
  by (auto simp: scrape_profile_try_def Let_def or_na_nonempty split: option.splits)

lemma scrape_profile_try_load:
  "(\<exists>e. scrape_profile_try pg = Inl e) \<longleftrightarrow> loaded pg \<noteq> None"
  by (auto simp: scrape_profile_try_def Let_def split: option.splits)

lemma scrape_profile_try_name:
  "scrape_profile_try pg = Inr r \<Longrightarrow> isl (heading pg) \<Longrightarrow> isl (heading_xlarge pg)
     \<Longrightarrow> name r = ''N/A''"
  by (auto simp: scrape_profile_try_def Let_def isl_def or_na_def split: option.splits)

lemma scrape_profile_try_title:
  "scrape_profile_try pg = Inr r \<Longrightarrow> isl (headline pg) \<Longrightarrow> isl (headline_alt pg)
     \<Longrightarrow> title r = ''N/A''"
  by (auto simp: scrape_profile_try_def Let_def isl_def or_na_def split: option.splits)

lemma scrape_profile_try_location:
  "scrape_profile_try pg = Inr r \<Longrightarrow> \<forall>sel \<in> set location_selectors. isl (small_text pg sel)
     \<Longrightarrow> location r = ''N/A''"
  by (auto simp: scrape_profile_try_def Let_def find_location_all_fail or_na_def split: option.splits)

lemma first_text_fail: "isl r \<Longrightarrow> isl (first_text r)"
  by (auto simp: first_text_def isl_def)

lemma experience_company_fail:
  "isl (experience_links pg) \<Longrightarrow> isl (experience_spans pg) \<Longrightarrow> experience_company pg c = c"
  using first_text_fail [of "experience_links pg"] first_text_fail [of "experience_spans pg"]
  by (auto simp: experience_company_def isl_def split: sum.splits option.splits)

lemma no_at_in_na: "\<not> py_in '' at '' ''N/A''"
  by (simp add: py_startswith_def)

lemma scrape_profile_try_company:
  "scrape_profile_try pg = Inr r \<Longrightarrow> isl (headline pg) \<Longrightarrow> isl (headline_alt pg)
     \<Longrightarrow> isl (experience_links pg) \<Longrightarrow> isl (experience_spans pg) \<Longrightarrow> company r = ''N/A''"
proof -
  assume a: "scrape_profile_try pg = Inr r" and h: "isl (headline pg)" "isl (headline_alt pg)"
    and x: "isl (experience_links pg)" "isl (experience_spans pg)"
  from h obtain e1 e2 where "headline pg = Inl e1" "headline_alt pg = Inl e2"
    by (auto simp: isl_def)
  with a have "company r = or_na (experience_company pg ''N/A'')"
    using no_at_in_na
    by (auto simp: scrape_profile_try_def Let_def simp del: py_in.simps split: option.splits)
  then show ?thesis
    using experience_company_fail [OF x] by (simp add: or_na_def)
qed

section \<open>Lemmas on the search loop\<close>

declare search_loop.simps [simp del]

lemma add_unique_Nil: "add_unique us [] = us"
  by (simp add: add_unique_def)

lemma search_loop_stop:
  "\<not> (int (length us) < l \<and> p < mx) \<Longrightarrow> search_loop f k l mx us p = ([], Inr us)"
  by (subst search_loop.simps) auto

lemma search_loop_fail:
  "int (length us) < l \<Longrightarrow> p < mx \<Longrightarrow> f (search_url k p) = Inl e
     \<Longrightarrow> search_loop f k l mx us p = ([mk_visit k p us (Inl e)], Inl e)"
  by (subst search_loop.simps) (simp add: mk_visit_def)

lemma search_loop_empty:
  "int (length us) < l \<Longrightarrow> p < mx \<Longrightarrow> f (search_url k p) = Inr pg \<Longrightarrow> page_urls_of us pg = []
     \<Longrightarrow> search_loop f k l mx us p = ([mk_visit k p us (Inr [])], Inr us)"
  by (subst search_loop.simps) (simp add: mk_visit_def add_unique_Nil)

lemma search_loop_step:
  "int (length us) < l \<Longrightarrow> p < mx \<Longrightarrow> f (search_url k p) = Inr pg \<Longrightarrow> page_urls_of us pg \<noteq> []
     \<Longrightarrow> search_loop f k l mx us p =
          (mk_visit k p us (Inr (page_urls_of us pg))
             # fst (search_loop f k l mx (add_unique us (page_urls_of us pg)) (p + 1)),
           snd (search_loop f k l mx (add_unique us (page_urls_of us pg)) (p + 1)))"
  by (subst search_loop.simps) (simp add: mk_visit_def Let_def split: prod.splits)

lemma search_loop_rule [case_names stop fail empty step]:
  assumes "\<And>us p. \<not> (int (length us) < l \<and> p < mx) \<Longrightarrow> P us p ([], Inr us)"
    and "\<And>us p e. int (length us) < l \<Longrightarrow> p < mx \<Longrightarrow> f (search_url k p) = Inl e
           \<Longrightarrow> P us p ([mk_visit k p us (Inl e)], Inl e)"
    and "\<And>us p pg. int (length us) < l \<Longrightarrow> p < mx \<Longrightarrow> f (search_url k p) = Inr pg
           \<Longrightarrow> page_urls_of us pg = [] \<Longrightarrow> P us p ([mk_visit k p us (Inr [])], Inr us)"
    and "\<And>us p pg vs r. int (length us) < l \<Longrightarrow> p < mx \<Longrightarrow> f (search_url k p) = Inr pg
           \<Longrightarrow> page_urls_of us pg \<noteq> []
           \<Longrightarrow> search_loop f k l mx (add_unique us (page_urls_of us pg)) (p + 1) = (vs, r)
           \<Longrightarrow> P (add_unique us (page_urls_of us pg)) (p + 1) (vs, r)
           \<Longrightarrow> P us p (mk_visit k p us (Inr (page_urls_of us pg)) # vs, r)"
  shows "P us p (search_loop f k l mx us p)"
  using assms
proof (induction f k l mx us p rule: search_loop.induct)
  case (1 f k l mx us p)
  note stop = "1.prems"(1) and fail = "1.prems"(2) and empty = "1.prems"(3) and step = "1.prems"(4)
  show ?case
  proof (cases "int (length us) < l \<and> p < mx")
    case False
    have "search_loop f k l mx us p = ([], Inr us)"
      by (rule search_loop_stop [OF False])
    then show ?thesis using stop [OF False] by (simp only:)
  next
    case True
    then have a: "int (length us) < l" and b: "p < mx" by simp_all
    show ?thesis
    proof (cases "f (search_url k p)")
      case (Inl e)
      have "search_loop f k l mx us p = ([mk_visit k p us (Inl e)], Inl e)"
        by (rule search_loop_fail [where f = f, OF a b Inl])
      then show ?thesis using fail [OF a b Inl] by (simp only:)
    next
      case (Inr pg)
      show ?thesis
      proof (cases "page_urls_of us pg = []")
        case True
        have "search_loop f k l mx us p = ([mk_visit k p us (Inr [])], Inr us)"
          by (rule search_loop_empty [where f = f, OF a b Inr True])
        then show ?thesis using empty [OF a b Inr True] by (simp only:)
      next
        case False
        let ?us = "add_unique us (page_urls_of us pg)"
        obtain vs r where rec: "search_loop f k l mx ?us (p + 1) = (vs, r)"
          by (cases "search_loop f k l mx ?us (p + 1)")
        have ne: "length (page_urls_of us pg) \<noteq> 0" using False by simp
        have "P ?us (p + 1) (search_loop f k l mx ?us (p + 1))"
          by (rule "1.IH" [OF True Inr refl refl refl ne stop fail empty step])
        then have ih: "P ?us (p + 1) (vs, r)" by (simp only: rec)
        have "search_loop f k l mx us p = (mk_visit k p us (Inr (page_urls_of us pg)) # vs, r)"
          using search_loop_step [where f = f, OF a b Inr False] by (simp only: rec fst_conv snd_conv)
        then show ?thesis using step [OF a b Inr False rec ih] by (simp only:)
      qed
    qed
  qed
qed


lemma search_loop_length: "length (fst (search_loop f k l mx us p)) \<le> nat (mx - p)"
  by (rule search_loop_rule [where P = "\<lambda>us p r. length (fst r) \<le> nat (mx - p)"]) auto

lemma search_loop_pages:
  "map page_no (fst (search_loop f k l mx us p))
     = map (\<lambda>i. p + int i) [0..<length (fst (search_loop f k l mx us p))]"
proof (rule search_loop_rule
    [where P = "\<lambda>us p r. map page_no (fst r) = map (\<lambda>i. p + int i) [0..<length (fst r)]"])
  fix us p pg and vs :: "visit list" and r :: "error + string list"
  assume "map page_no (fst (vs, r)) = map (\<lambda>i. p + 1 + int i) [0..<length (fst (vs, r))]"
  then have "map page_no vs = map (\<lambda>i. p + int (Suc i)) [0..<length vs]"
    by (simp add: add.assoc add.commute)
  then show "map page_no (fst (mk_visit k p us (Inr (page_urls_of us pg)) # vs, r))
      = map (\<lambda>i. p + int i) [0..<length (fst (mk_visit k p us (Inr (page_urls_of us pg)) # vs, r))]"
    by (simp add: mk_visit_def upt_conv_Cons map_Suc_upt [symmetric] del: upt_Suc)
qed (simp_all add: mk_visit_def)

lemma search_loop_each:
  "\<forall>v \<in> set (fst (search_loop f k l mx us p)).
     int (length (known v)) < l \<and> page_no v < mx \<and> requested v = search_url k (page_no v)
     \<and> outcome v = (case f (requested v) of Inl e \<Rightarrow> Inl e
                     | Inr pg \<Rightarrow> Inr (page_urls_of (known v) pg))"
  by (rule search_loop_rule [where P = "\<lambda>us p r. \<forall>v \<in> set (fst r).
     int (length (known v)) < l \<and> page_no v < mx \<and> requested v = search_url k (page_no v)
     \<and> outcome v = (case f (requested v) of Inl e \<Rightarrow> Inl e
                     | Inr pg \<Rightarrow> Inr (page_urls_of (known v) pg))"])
     (simp_all add: mk_visit_def)

lemma search_loop_hd:
  "search_loop f k l mx us p = (v # vs, r) \<Longrightarrow> known v = us"
  by (subst (asm) search_loop.simps)
     (auto simp: Let_def split: if_splits sum.splits prod.splits)

lemma search_loop_chain:
  "\<forall>i. Suc i < length (fst (search_loop f k l mx us p)) \<longrightarrow>
     (\<exists>new. outcome (fst (search_loop f k l mx us p) ! i) = Inr new \<and> new \<noteq> []
        \<and> known (fst (search_loop f k l mx us p) ! Suc i)
            = add_unique (known (fst (search_loop f k l mx us p) ! i)) new)"
proof (rule search_loop_rule [where P = "\<lambda>us p r. \<forall>i. Suc i < length (fst r) \<longrightarrow>
     (\<exists>new. outcome (fst r ! i) = Inr new \<and> new \<noteq> []
        \<and> known (fst r ! Suc i) = add_unique (known (fst r ! i)) new)"])
  fix us p pg vs r
  let ?new = "page_urls_of us pg"
  assume ne: "?new \<noteq> []"
    and rec: "search_loop f k l mx (add_unique us ?new) (p + 1) = (vs, r)"
    and ih: "\<forall>i. Suc i < length (fst (vs, r)) \<longrightarrow>
     (\<exists>new. outcome (fst (vs, r) ! i) = Inr new \<and> new \<noteq> []
        \<and> known (fst (vs, r) ! Suc i) = add_unique (known (fst (vs, r) ! i)) new)"
  show "\<forall>i. Suc i < length (fst (mk_visit k p us (Inr ?new) # vs, r)) \<longrightarrow>
     (\<exists>new. outcome (fst (mk_visit k p us (Inr ?new) # vs, r) ! i) = Inr new \<and> new \<noteq> []
        \<and> known (fst (mk_visit k p us (Inr ?new) # vs, r) ! Suc i)
            = add_unique (known (fst (mk_visit k p us (Inr ?new) # vs, r) ! i)) new)"
  proof (intro allI impI)
    fix i
    assume i: "Suc i < length (fst (mk_visit k p us (Inr ?new) # vs, r))"
    show "\<exists>new. outcome (fst (mk_visit k p us (Inr ?new) # vs, r) ! i) = Inr new \<and> new \<noteq> []
        \<and> known (fst (mk_visit k p us (Inr ?new) # vs, r) ! Suc i)
            = add_unique (known (fst (mk_visit k p us (Inr ?new) # vs, r) ! i)) new"
    proof (cases i)
      case 0
      with i obtain w ws where vs: "vs = w # ws" by (cases vs) auto
      with rec have "known w = add_unique us ?new" using search_loop_hd by blast
      with 0 ne vs show ?thesis by (simp add: mk_visit_def)
    next
      case (Suc j)
      with i ih show ?thesis by simp
    qed
  qed
qed simp_all

section \<open>Lemmas on the URLs of a page\<close>

lemma split_from_nonempty: "split_from sep w s \<noteq> []"
  by (induction sep w s rule: split_from.induct) auto

lemma split_from_char_hd:
  "hd (split_from [c] w s) = rev w @ takeWhile (\<lambda>x. x \<noteq> c) s"
  by (induction s arbitrary: w) (auto simp: py_startswith_def)

lemma py_split_query_hd: "hd (py_split s ''?'') = takeWhile (\<lambda>x. x \<noteq> CHR ''?'') s"
  by (simp add: py_split_def split_from_char_hd)

lemma entity_url_no_query: "CHR ''?'' \<notin> set (entity_url href)"
proof -
  have "\<And>s. CHR ''?'' \<notin> set (takeWhile (\<lambda>x. x \<noteq> CHR ''?'') s)"
    by (metis (mono_tags, lifting) set_takeWhileD)
  then show ?thesis by (simp add: entity_url_def py_split_query_hd)
qed

lemma anchor_url_absolute_no_query:
  "\<not> py_startswith href ''/'' \<Longrightarrow> anchor_url href = Some u \<Longrightarrow> CHR ''?'' \<notin> set u"
proof -
  assume a: "\<not> py_startswith href ''/''" and b: "anchor_url href = Some u"
  then have "u = takeWhile (\<lambda>x. x \<noteq> CHR ''?'') href"
    by (auto simp: anchor_url_def py_split_query_hd split: if_splits)
  then show ?thesis by (metis (mono_tags, lifting) set_takeWhileD)
qed

lemma scan_anchors_set:
  "set (scan_anchors us hrefs acc) = set acc \<union> (anchor_candidates hrefs - set us)"
  unfolding scan_anchors_def anchor_candidates_def
  by (induction hrefs arbitrary: acc) (auto split: option.splits)

lemma scan_entities_set:
  "set (scan_entities us links acc) = set acc \<union> (entity_candidates links - set us)"
  unfolding scan_entities_def entity_candidates_def
  by (induction links arbitrary: acc) (auto simp: Let_def split: option.splits)

lemma scan_anchors_distinct: "distinct acc \<Longrightarrow> distinct (scan_anchors us hrefs acc)"
  unfolding scan_anchors_def
  by (induction hrefs arbitrary: acc) (auto split: option.splits)

lemma scan_entities_distinct: "distinct acc \<Longrightarrow> distinct (scan_entities us links acc)"
  unfolding scan_entities_def
  by (induction links arbitrary: acc) (auto simp: Let_def split: option.splits)

lemma page_urls_of_set:
  "set (page_urls_of us pg) = set (page_urls_of [] pg) - set us"
  by (auto simp: page_urls_of_def scan_anchors_set scan_entities_set)

lemma page_urls_of_distinct: "distinct (page_urls_of us pg)"
  by (simp add: page_urls_of_def scan_anchors_distinct scan_entities_distinct)

lemma add_unique_append:
  "distinct new \<Longrightarrow> set new \<inter> set us = {} \<Longrightarrow> add_unique us new = us @ new"
  unfolding add_unique_def
  by (induction new arbitrary: us) auto

lemma add_unique_page_urls: "add_unique us (page_urls_of us pg) = us @ page_urls_of us pg"
  by (rule add_unique_append) (auto simp: page_urls_of_distinct page_urls_of_set [of us])

lemma py_prefix_length: "0 \<le> n \<Longrightarrow> int (length (py_prefix xs n)) \<le> n"
  by (simp add: py_prefix_def)

lemma list_of_set_set: "set (list_of_set rank xs) = set xs"
  by (simp add: list_of_set_def)

lemma list_of_set_distinct: "distinct (list_of_set rank xs)"
  by (simp add: list_of_set_def)

lemma list_of_set_Nil: "list_of_set rank [] = []"
  by (simp add: list_of_set_def)

lemma search_profiles_fst:
  "fst (search_profiles f rank k l) = fst (search_loop f k l (max_pages l) [] 0)"
  by (simp add: search_profiles_def split: prod.splits sum.splits)

lemma search_profiles_snd:
  "snd (search_profiles f rank k l) =
     (case snd (search_loop f k l (max_pages l) [] 0) of
        Inl e \<Rightarrow> Inr []
      | Inr us \<Rightarrow> Inr (py_prefix (list_of_set rank us) l))"
  by (simp add: search_profiles_def split: prod.splits sum.splits)

lemma search_profiles_Inr: "\<exists>us. snd (search_profiles f rank k l) = Inr us"
  by (simp add: search_profiles_snd split: sum.splits)

lemma search_profiles_distinct:
  "snd (search_profiles f rank k l) = Inr us \<Longrightarrow> distinct us"
  by (auto simp: search_profiles_snd py_prefix_def list_of_set_distinct split: sum.splits if_splits)

lemma search_profiles_length:
  "0 \<le> l \<Longrightarrow> snd (search_profiles f rank k l) = Inr us \<Longrightarrow> int (length us) \<le> l"
  by (auto simp: search_profiles_snd py_prefix_length split: sum.splits)

section \<open>Lemmas on the job\<close>

lemma scrape_profile_Inr: "\<exists>r. scrape_profile pg = Inr r"
  by (simp add: scrape_profile_def split: sum.splits)

lemma scrape_each_eq:
  "scrape_each env urls
     = (map ProfileCall urls, Inr (map (\<lambda>u. projr (scrape_profile (profile_at env u))) urls))"
proof (induction urls)
  case Nil
  show ?case by simp
next
  case (Cons url urls)
  obtain r where r: "scrape_profile (profile_at env url) = Inr r"
    using scrape_profile_Inr by blast
  show ?case by (simp add: r Cons)
qed

lemma profile_calls_no_quit: "count_list (map ProfileCall us) QuitCall = 0"
  by (simp add: count_list_0_iff image_iff)

lemma profile_calls_no_driver: "count_list (map ProfileCall us) NewDriver = 0"
  by (simp add: count_list_0_iff image_iff)

lemma scrape_try_calls:
  "scrape_try env k l = (d, r, cs) \<Longrightarrow>
     count_list cs QuitCall = 0
     \<and> d = (service_error env = None \<and> chrome_error env = None)
     \<and> count_list cs NewDriver = (if d then 1 else 0)"
  by (auto simp: scrape_try_def scrape_each_eq profile_calls_no_quit profile_calls_no_driver
           split: option.splits sum.splits if_splits)

lemma scrape_try_result_length:
  "0 \<le> l \<Longrightarrow> scrape_try env k l = (d, Inr rs, cs) \<Longrightarrow>
     int (length rs) \<le> l \<and> int (length (filter is_profile_call cs)) \<le> l"
  by (auto simp: scrape_try_def scrape_each_eq py_prefix_length
           split: option.splits sum.splits if_splits)

lemma scrape_try_profile_calls:
  "0 \<le> l \<Longrightarrow> scrape_try env k l = (d, r, cs) \<Longrightarrow>
     int (length (filter is_profile_call cs)) \<le> l"
  by (auto simp: scrape_try_def scrape_each_eq py_prefix_length
           split: option.splits sum.splits if_splits)

lemma scrape_unfold:
  "scrape_try env k l = (d, r, cs) \<Longrightarrow>
     scrape env k l = (r, if d then cs @ [QuitCall] else cs)"
  by (simp add: scrape_def)

lemma max_pages_le_ceiling: "max_pages l \<le> \<lceil>real_of_int l / 10\<rceil> + 2"
proof -
  have "l div 10 = \<lfloor>real_of_int l / real_of_int 10\<rfloor>"
    by (simp only: floor_divide_of_int_eq)
  also have "\<dots> \<le> \<lceil>real_of_int l / 10\<rceil>"
    by (simp add: floor_le_ceiling)
  finally show ?thesis by (simp add: max_pages_def)
qed

section \<open>Teardown of the driver\<close>

text \<open>
  C1 (as amended). In every job the number of calls that close the driver equals the number
  of drivers created, and it is never more than one: exactly one such call is made, as the
  last call of the job, when the driver service was resolved and the browser driver was
  constructed, whatever the job does afterwards (the list of records is returned, the read
  of the URL fails, the login fails); no such call is made when the job fails before a
  driver exists.
\<close>

theorem scrape_teardown_once:
  "(let cs = snd (scrape env k l)
    in count_list cs QuitCall = count_list cs NewDriver
       \<and> count_list cs QuitCall
           = (if service_error env = None \<and> chrome_error env = None then 1 else 0)
       \<and> (count_list cs QuitCall = 1 \<longrightarrow> last cs = QuitCall))"
proof -
  obtain d r cs where t: "scrape_try env k l = (d, r, cs)"
    by (cases "scrape_try env k l") auto
  from scrape_try_calls [OF t] scrape_unfold [OF t] show ?thesis
    by (auto simp: Let_def)
qed

theorem scrape_teardown_once_witness:
  "count_list (snd (scrape env_login_fail [''food'', ''dubai''] 5)) QuitCall = 1
   \<and> last (snd (scrape env_login_fail [''food'', ''dubai''] 5)) = QuitCall
   \<and> count_list (snd (scrape env_no_chrome [''food'', ''dubai''] 5)) QuitCall = 0"
proof -
  have a: "service_error env_login_fail = None \<and> chrome_error env_login_fail = None"
    by (simp add: env_login_fail_def env_ok_def)
  have b: "chrome_error env_no_chrome \<noteq> None"
    by (simp add: env_no_chrome_def env_ok_def)
  show ?thesis
    using scrape_teardown_once [of env_login_fail "[''food'', ''dubai'']" 5]
          scrape_teardown_once [of env_no_chrome "[''food'', ''dubai'']" 5] a b
    by (simp add: Let_def)
qed

text \<open>
  The claim C1 as it is written fails where the driver cannot be resolved: the job fails
  and no call closes a driver.
\<close>

theorem scrape_teardown_counterexample:
  "fst (scrape env_no_driver [''food'', ''dubai''] 5) = Inl (PyException ''ChromeDriver not found'')
   \<and> count_list (snd (scrape env_no_driver [''food'', ''dubai''] 5)) QuitCall = 0"
  by (simp add: scrape_def scrape_try_def env_no_driver_def env_ok_def)

section \<open>Profile records\<close>

text \<open>
  C2. For every profile page the extractor returns a record and does not raise. Each of the
  four fields of the record is a non-empty string (the sentinel N/A is one). A page that
  does not load gives the record of four sentinels; when both lookups of the name fail the
  name is the sentinel, when both lookups of the headline fail the title is the sentinel,
  and then the company is the sentinel too if both lookups of the experience section fail;
  when the lookup fails for every location selector the location is the sentinel.
\<close>

theorem scrape_profile_never_raises:
  "\<exists>r. scrape_profile pg = Inr r
     \<and> name r \<noteq> [] \<and> title r \<noteq> [] \<and> company r \<noteq> [] \<and> location r \<noteq> []
     \<and> (loaded pg \<noteq> None \<longrightarrow>
          r = \<lparr>name = ''N/A'', title = ''N/A'', company = ''N/A'', location = ''N/A''\<rparr>)
     \<and> (isl (heading pg) \<and> isl (heading_xlarge pg) \<longrightarrow> name r = ''N/A'')
     \<and> (isl (headline pg) \<and> isl (headline_alt pg) \<longrightarrow> title r = ''N/A'')
     \<and> (isl (headline pg) \<and> isl (headline_alt pg)
          \<and> isl (experience_links pg) \<and> isl (experience_spans pg) \<longrightarrow> company r = ''N/A'')
     \<and> ((\<forall>sel \<in> set location_selectors. isl (small_text pg sel)) \<longrightarrow> location r = ''N/A'')"
proof (cases "scrape_profile_try pg")
  case (Inl e)
  then have "loaded pg \<noteq> None" using scrape_profile_try_load by blast
  with Inl show ?thesis by (simp add: scrape_profile_def)
next
  case (Inr r)
  then have "loaded pg = None" using scrape_profile_try_load [of pg] by auto
  moreover have "scrape_profile pg = Inr r" using Inr by (simp add: scrape_profile_def)
  ultimately show ?thesis
    using scrape_profile_try_fields [OF Inr] scrape_profile_try_name [OF Inr]
      scrape_profile_try_title [OF Inr] scrape_profile_try_company [OF Inr]
      scrape_profile_try_location [OF Inr]
    by blast
qed

theorem scrape_profile_never_raises_witness:
  "scrape_profile page_bare
     = Inr \<lparr>name = ''N/A'', title = ''N/A'', company = ''N/A'', location = ''N/A''\<rparr>
   \<and> scrape_profile page_down
     = Inr \<lparr>name = ''N/A'', title = ''N/A'', company = ''N/A'', location = ''N/A''\<rparr>"
proof -
  have a: "isl (heading page_bare) \<and> isl (heading_xlarge page_bare)
      \<and> isl (headline page_bare) \<and> isl (headline_alt page_bare)
      \<and> isl (experience_links page_bare) \<and> isl (experience_spans page_bare)
      \<and> (\<forall>sel \<in> set location_selectors. isl (small_text page_bare sel))"
    by (simp add: page_bare_def)
  have b: "loaded page_down \<noteq> None"
    by (simp add: page_down_def)
  from scrape_profile_never_raises [of page_bare] a
  obtain r where r: "scrape_profile page_bare = Inr r" "name r = ''N/A''" "title r = ''N/A''"
      "company r = ''N/A''" "location r = ''N/A''"
    by blast
  then have "r = \<lparr>name = ''N/A'', title = ''N/A'', company = ''N/A'', location = ''N/A''\<rparr>"
    by simp
  with r(1) scrape_profile_never_raises [of page_down] b show ?thesis
    by auto
qed

section \<open>The limit\<close>

text \<open>
  C3. For every job with a positive limit the paginator returns a list of at most
  \<open>limit\<close> URLs, the job extracts at most \<open>limit\<close> profiles, and a job that ends in DONE
  returns at most \<open>limit\<close> records.
\<close>

theorem results_at_most_limit:
  "0 < l \<Longrightarrow>
     (\<exists>us. snd (search_profiles f rank k l) = Inr us \<and> int (length us) \<le> l)
     \<and> (\<forall>rs. fst (scrape env k l) = Inr rs \<longrightarrow> int (length rs) \<le> l)
     \<and> int (length (filter is_profile_call (snd (scrape env k l)))) \<le> l"
proof -
  assume l: "0 < l"
  then have l0: "0 \<le> l" by simp
  obtain us where us: "snd (search_profiles f rank k l) = Inr us"
    using search_profiles_Inr by blast
  have a: "int (length us) \<le> l" by (rule search_profiles_length [OF l0 us])
  obtain d r cs where t: "scrape_try env k l = (d, r, cs)"
    by (cases "scrape_try env k l") auto
  have b: "\<forall>rs. fst (scrape env k l) = Inr rs \<longrightarrow> int (length rs) \<le> l"
    using scrape_try_result_length [OF l0, of env k d _ cs] t scrape_unfold [OF t] by auto
  have c: "int (length (filter is_profile_call (snd (scrape env k l)))) \<le> l"
    using scrape_try_profile_calls [OF l0 t] scrape_unfold [OF t] by auto
  from us a b c show ?thesis by blast
qed

theorem results_at_most_limit_witness:
  "snd (search_profiles (search_page env_ok) (set_rank env_ok) [''food'', ''dubai''] 1)
     = Inr [''https://www.linkedin.com/in/jane-doe'']
   \<and> fst (scrape env_ok [''food'', ''dubai''] 1)
     = Inr [\<lparr>name = ''Jane Doe'', title = ''Chef at Food Co'', company = ''Food Co'',
              location = ''Dubai, UAE''\<rparr>]"
proof -
  have a: "snd (search_profiles (search_page env_ok) (set_rank env_ok) [''food'', ''dubai''] 1)
     = Inr [''https://www.linkedin.com/in/jane-doe'']"
    by code_simp
  have b: "fst (scrape env_ok [''food'', ''dubai''] 1)
     = Inr [\<lparr>name = ''Jane Doe'', title = ''Chef at Food Co'', company = ''Food Co'',
              location = ''Dubai, UAE''\<rparr>]"
    by code_simp
  have "(0::int) < 1" by simp
  from results_at_most_limit [OF this, of "search_page env_ok" "set_rank env_ok"
      "[''food'', ''dubai'']" env_ok] a b
  show ?thesis by simp
qed

section \<open>Canonical URLs\<close>

text \<open>
  C4. On a search page whose only result is a relative link with a query string, inside a
  result container, the paginator returns two URLs for the one profile: the anchor scan
  keeps the query string of the relative link, the scan of the containers strips it.
\<close>

theorem relative_link_keeps_query:
  "snd (search_profiles (\<lambda>url. Inr results_relative) (\<lambda>url. 0) [''john''] 20)
     = Inr [''https://www.linkedin.com/in/john?trk=linkedin.com'',
            ''https://www.linkedin.com/in/john'']"
  by code_simp

section \<open>The number of pages\<close>

text \<open>
  C5 (as amended). For every positive limit, \<open>max_pages\<close> is \<open>limit div 10 + 2\<close>, the
  floor of \<open>limit / 10\<close> plus 2; the paginator visits at most \<open>max_pages\<close> pages, namely
  the pages 0, 1, 2, \<dots> in this order. This number is at most the ceiling of
  \<open>limit / 10\<close> plus 2. For the limit 5, \<open>max_pages\<close> is 2.
\<close>

theorem pages_visited_bound:
  "0 < l \<Longrightarrow>
     max_pages l = l div 10 + 2
     \<and> int (length (fst (search_profiles f rank k l))) \<le> max_pages l
     \<and> map page_no (fst (search_profiles f rank k l))
         = map int [0..<length (fst (search_profiles f rank k l))]
     \<and> max_pages l \<le> \<lceil>real_of_int l / 10\<rceil> + 2
     \<and> max_pages 5 = 2"
proof -
  assume l: "0 < l"
  then have m: "0 \<le> max_pages l" by (simp add: max_pages_def)
  have a: "int (length (fst (search_profiles f rank k l))) \<le> max_pages l"
    using search_loop_length [of f k l "max_pages l" "[]" 0] m
    by (simp add: search_profiles_fst)
  have b: "map page_no (fst (search_profiles f rank k l))
         = map int [0..<length (fst (search_profiles f rank k l))]"
    using search_loop_pages [of f k l "max_pages l" "[]" 0]
    by (simp add: search_profiles_fst)
  have c: "max_pages 5 = 2" by (simp add: max_pages_def)
  from a b c max_pages_le_ceiling [of l] show ?thesis by (simp add: max_pages_def)
qed

theorem pages_visited_bound_witness:
  "int (length (fst (search_profiles (search_page env_ok) (set_rank env_ok) [''food'', ''dubai''] 5)))
     \<le> 2
   \<and> map page_no (fst (search_profiles (search_page env_ok) (set_rank env_ok) [''food'', ''dubai''] 5))
     = [0, 1]"
proof -
  have n: "length (fst (search_profiles (search_page env_ok) (set_rank env_ok) [''food'', ''dubai''] 5))
     = 2"
    by code_simp
  have u: "map int [0..<2] = [0, 1]" by code_simp
  have "(0::int) < 5" by simp
  from pages_visited_bound [OF this, of "search_page env_ok" "set_rank env_ok" "[''food'', ''dubai'']"]
  show ?thesis unfolding n u by simp
qed

text \<open>
  The claim C5 as it is written fails at the limit 5, where \<open>max_pages\<close> is 2 and the
  ceiling of 5 / 10 plus 2 is 3.
\<close>

theorem max_pages_counterexample:
  "max_pages 5 = 2 \<and> \<lceil>(5::real) / 10\<rceil> + 2 = (3::int)
   \<and> max_pages 5 \<noteq> \<lceil>(5::real) / 10\<rceil> + 2"
proof -
  have "\<lceil>(5::real) / 10\<rceil> = (1::int)" by (simp add: ceiling_eq_iff)
  then show ?thesis by (simp add: max_pages_def)
qed

section \<open>Empty search results\<close>

text \<open>
  C6. The paginator always returns a list and never raises; it returns the empty list
  when the first search page fails to load or shows no profile link. Whenever the paginator
  returns the empty list in a job that has logged in, the job ends in DONE with the empty
  list of records, after closing the driver.
\<close>

theorem empty_search_is_done:
  "(\<exists>us. snd (search_profiles f rank k l) = Inr us)
   \<and> ((case f (base_url k) of Inl e \<Rightarrow> True | Inr pg \<Rightarrow> page_urls_of [] pg = [])
        \<longrightarrow> snd (search_profiles f rank k l) = Inr [])
   \<and> (service_error env = None \<and> chrome_error env = None \<and> initial_url env = Inr url0
        \<and> login env \<and> snd (search_profiles (search_page env) (set_rank env) k l) = Inr []
        \<longrightarrow> scrape env k l = (Inr [], [NewDriver, LoginCall, SearchCall, QuitCall]))"
proof -
  have a: "\<exists>us. snd (search_profiles f rank k l) = Inr us"
    by (rule search_profiles_Inr)
  have b: "(case f (base_url k) of Inl e \<Rightarrow> True | Inr pg \<Rightarrow> page_urls_of [] pg = [])
        \<longrightarrow> snd (search_profiles f rank k l) = Inr []"
  proof
    assume z: "case f (base_url k) of Inl e \<Rightarrow> True | Inr pg \<Rightarrow> page_urls_of [] pg = []"
    have u: "search_url k 0 = base_url k" by (simp add: search_url_def)
    show "snd (search_profiles f rank k l) = Inr []"
    proof (cases "int (length ([]::string list)) < l \<and> 0 < max_pages l")
      case False
      then show ?thesis
        using search_loop_stop [of "[]" l 0 "max_pages l" f k]
        by (simp add: search_profiles_snd list_of_set_Nil py_prefix_def)
    next
      case True
      then have p: "int (length ([]::string list)) < l" and q: "0 < max_pages l" by simp_all
      show ?thesis
      proof (cases "f (base_url k)")
        case (Inl e)
        then have "f (search_url k 0) = Inl e" by (simp add: u)
        from search_loop_fail [where f = f, OF p q this] show ?thesis
          by (simp add: search_profiles_snd)
      next
        case (Inr pg)
        then have g: "f (search_url k 0) = Inr pg" by (simp add: u)
        from z Inr have "page_urls_of [] pg = []" by simp
        from search_loop_empty [where f = f, OF p q g this] show ?thesis
          by (simp add: search_profiles_snd list_of_set_Nil py_prefix_def)
      qed
    qed
  qed
  have c: "service_error env = None \<and> chrome_error env = None \<and> initial_url env = Inr url0
        \<and> login env \<and> snd (search_profiles (search_page env) (set_rank env) k l) = Inr []
        \<longrightarrow> scrape env k l = (Inr [], [NewDriver, LoginCall, SearchCall, QuitCall])"
    by (simp add: scrape_def scrape_try_def)
  from a b c show ?thesis by blast
qed

theorem empty_search_is_done_witness:
  "scrape env_empty [''food'', ''dubai''] 5
     = (Inr [], [NewDriver, LoginCall, SearchCall, QuitCall])"
proof -
  have a: "service_error env_empty = None \<and> chrome_error env_empty = None
      \<and> initial_url env_empty = Inr ''data:,'' \<and> login env_empty"
    by (simp add: env_empty_def env_ok_def login_def py_startswith_def)
  have b: "case search_page env_empty (base_url [''food'', ''dubai'']) of
             Inl e \<Rightarrow> True | Inr pg \<Rightarrow> page_urls_of [] pg = []"
    by code_simp
  from empty_search_is_done [of "search_page env_empty" "set_rank env_empty"
      "[''food'', ''dubai'']" 5 env_empty "''data:,''"] a b
  show ?thesis by blast
qed

section \<open>The end of the pagination\<close>

text \<open>
  C8. The visits of one search are the pages 0, 1, 2, \<dots> below \<open>max_pages\<close>. A page
  is requested only while fewer than \<open>limit\<close> URLs are known. A page that loads gives
  the URLs found on it that were not known before. A page that gives no such URL is the
  last page visited; every page before the last one visited gave at least one new URL, and
  these are appended to the known URLs.
\<close>

theorem pagination_halts_early:
  "(let vs = fst (search_profiles f rank k l)
    in (\<forall>i < length vs.
          page_no (vs ! i) = int i \<and> page_no (vs ! i) < max_pages l
          \<and> requested (vs ! i) = search_url k (int i)
          \<and> int (length (known (vs ! i))) < l
          \<and> (\<forall>pg. f (requested (vs ! i)) = Inr pg \<longrightarrow>
                outcome (vs ! i) = Inr (page_urls_of (known (vs ! i)) pg)
                \<and> set (page_urls_of (known (vs ! i)) pg)
                    = set (page_urls_of [] pg) - set (known (vs ! i)))
          \<and> (outcome (vs ! i) = Inr [] \<longrightarrow> Suc i = length vs))
       \<and> (\<forall>i. Suc i < length vs \<longrightarrow>
             (\<exists>new. outcome (vs ! i) = Inr new \<and> new \<noteq> []
                \<and> known (vs ! Suc i) = known (vs ! i) @ new)))"
proof -
  define vs where "vs = fst (search_loop f k l (max_pages l) [] 0)"
  have pages: "map page_no vs = map (\<lambda>i. 0 + int i) [0..<length vs]"
    unfolding vs_def by (rule search_loop_pages)
  have each: "\<forall>v \<in> set vs.
     int (length (known v)) < l \<and> page_no v < max_pages l
     \<and> requested v = search_url k (page_no v)
     \<and> outcome v = (case f (requested v) of Inl e \<Rightarrow> Inl e
                     | Inr pg \<Rightarrow> Inr (page_urls_of (known v) pg))"
    unfolding vs_def by (rule search_loop_each)
  have chain: "\<forall>i. Suc i < length vs \<longrightarrow>
     (\<exists>new. outcome (vs ! i) = Inr new \<and> new \<noteq> []
        \<and> known (vs ! Suc i) = add_unique (known (vs ! i)) new)"
    unfolding vs_def by (rule search_loop_chain)
  have no: "\<And>i. i < length vs \<Longrightarrow> page_no (vs ! i) = int i"
  proof -
    fix i assume i: "i < length vs"
    then have "page_no (vs ! i) = map page_no vs ! i" by simp
    also have "\<dots> = map (\<lambda>i. 0 + int i) [0..<length vs] ! i" by (simp only: pages)
    also have "\<dots> = int i" using i by simp
    finally show "page_no (vs ! i) = int i" .
  qed
  have chain': "\<forall>i. Suc i < length vs \<longrightarrow>
     (\<exists>new. outcome (vs ! i) = Inr new \<and> new \<noteq> [] \<and> known (vs ! Suc i) = known (vs ! i) @ new)"
  proof (intro allI impI)
    fix i assume i: "Suc i < length vs"
    with chain obtain new where new: "outcome (vs ! i) = Inr new" "new \<noteq> []"
        "known (vs ! Suc i) = add_unique (known (vs ! i)) new" by blast
    from i have "vs ! i \<in> set vs" by simp
    with each have "outcome (vs ! i) = (case f (requested (vs ! i)) of Inl e \<Rightarrow> Inl e
                     | Inr pg \<Rightarrow> Inr (page_urls_of (known (vs ! i)) pg))" by blast
    with new(1) obtain pg where "new = page_urls_of (known (vs ! i)) pg"
      by (auto split: sum.splits)
    with new add_unique_page_urls [of "known (vs ! i)" pg]
    show "\<exists>new. outcome (vs ! i) = Inr new \<and> new \<noteq> [] \<and> known (vs ! Suc i) = known (vs ! i) @ new"
      by simp
  qed
  have first: "\<forall>i < length vs.
          page_no (vs ! i) = int i \<and> page_no (vs ! i) < max_pages l
          \<and> requested (vs ! i) = search_url k (int i)
          \<and> int (length (known (vs ! i))) < l
          \<and> (\<forall>pg. f (requested (vs ! i)) = Inr pg \<longrightarrow>
                outcome (vs ! i) = Inr (page_urls_of (known (vs ! i)) pg)
                \<and> set (page_urls_of (known (vs ! i)) pg)
                    = set (page_urls_of [] pg) - set (known (vs ! i)))
          \<and> (outcome (vs ! i) = Inr [] \<longrightarrow> Suc i = length vs)"
  proof (intro allI impI)
    fix i assume i: "i < length vs"
    then have "vs ! i \<in> set vs" by simp
    with each have e: "int (length (known (vs ! i))) < l" "page_no (vs ! i) < max_pages l"
        "requested (vs ! i) = search_url k (page_no (vs ! i))"
        "outcome (vs ! i) = (case f (requested (vs ! i)) of Inl e \<Rightarrow> Inl e
                     | Inr pg \<Rightarrow> Inr (page_urls_of (known (vs ! i)) pg))"
      by blast+
    have z: "outcome (vs ! i) = Inr [] \<longrightarrow> Suc i = length vs"
    proof
      assume o: "outcome (vs ! i) = Inr []"
      have "\<not> Suc i < length vs"
      proof
        assume "Suc i < length vs"
        with chain' obtain new where "outcome (vs ! i) = Inr new" "new \<noteq> []" by blast
        with o show False by simp
      qed
      with i show "Suc i = length vs" by simp
    qed
    show "page_no (vs ! i) = int i \<and> page_no (vs ! i) < max_pages l
          \<and> requested (vs ! i) = search_url k (int i)
          \<and> int (length (known (vs ! i))) < l
          \<and> (\<forall>pg. f (requested (vs ! i)) = Inr pg \<longrightarrow>
                outcome (vs ! i) = Inr (page_urls_of (known (vs ! i)) pg)
                \<and> set (page_urls_of (known (vs ! i)) pg)
                    = set (page_urls_of [] pg) - set (known (vs ! i)))
          \<and> (outcome (vs ! i) = Inr [] \<longrightarrow> Suc i = length vs)"
      using no [OF i] e z page_urls_of_set [of "known (vs ! i)"] by simp
  qed
  from first chain' show ?thesis
    unfolding Let_def search_profiles_fst vs_def [symmetric] by blast
qed

theorem pagination_halts_early_witness:
  "(let vs = fst (search_profiles (search_page env_ok) (set_rank env_ok) [''food'', ''dubai''] 20)
    in length vs = 2 \<and> int (length vs) < max_pages 20
       \<and> outcome (vs ! 1) = Inr []
       \<and> known (vs ! 1) = [''https://www.linkedin.com/in/jane-doe'',
                            ''https://www.linkedin.com/in/omar-k''])"
proof -
  let ?vs = "fst (search_profiles (search_page env_ok) (set_rank env_ok) [''food'', ''dubai''] 20)"
  have n: "length ?vs = 2" by code_simp
  have o: "outcome (?vs ! 0) = Inr [''https://www.linkedin.com/in/jane-doe'',
                            ''https://www.linkedin.com/in/omar-k'']" by code_simp
  have k0: "known (?vs ! 0) = []" by code_simp
  have f1: "search_page env_ok (requested (?vs ! 1)) = Inr results_two"
    by (simp add: env_ok_def)
  have p1: "page_urls_of (known (?vs ! 1)) results_two = []" by code_simp
  have m: "max_pages 20 = 4" by (simp add: max_pages_def)
  have i0: "Suc 0 < length ?vs" and i1: "1 < length ?vs" using n by simp_all
  from pagination_halts_early [of "search_page env_ok" "set_rank env_ok" "[''food'', ''dubai'']" 20]
  have a: "\<forall>i < length ?vs. (\<forall>pg. search_page env_ok (requested (?vs ! i)) = Inr pg \<longrightarrow>
                outcome (?vs ! i) = Inr (page_urls_of (known (?vs ! i)) pg))"
    and b: "\<forall>i. Suc i < length ?vs \<longrightarrow>
             (\<exists>new. outcome (?vs ! i) = Inr new \<and> new \<noteq> []
                \<and> known (?vs ! Suc i) = known (?vs ! i) @ new)"
    unfolding Let_def by blast+
  from a i1 f1 p1 have o1: "outcome (?vs ! 1) = Inr []" by metis
  from b i0 o k0 have k1: "known (?vs ! 1) = [''https://www.linkedin.com/in/jane-doe'',
                            ''https://www.linkedin.com/in/omar-k'']" by auto
  from n m o1 k1 show ?thesis unfolding Let_def by simp
qed

section \<open>Login failure\<close>

text \<open>
  C9 (as amended). When the login form is submitted and both reads of the browser URL after
  the wait give a URL that contains neither \<open>feed\<close> nor \<open>linkedin.com/in/\<close>, the login
  check fails; and whenever the login check fails in a job whose driver was created, the job
  fails with an instance of the built-in class \<open>Exception\<close> with the message
  ``Failed to login to LinkedIn'', after exactly one call that closes the driver, which is
  the last call of the job.
\<close>

theorem login_failure_fails_job:
  "(login_form env = None \<and> login_url env = Inr url \<and> login_url_again env = Inr url
      \<and> \<not> py_in ''feed'' url \<and> \<not> py_in ''linkedin.com/in/'' url \<longrightarrow> \<not> login env)
   \<and> (service_error env = None \<and> chrome_error env = None \<and> initial_url env = Inr url0
        \<and> \<not> login env
      \<longrightarrow> scrape env k l
            = (Inl (PyException ''Failed to login to LinkedIn''), [NewDriver, LoginCall, QuitCall])
          \<and> class_name (PyException ''Failed to login to LinkedIn'') = ''Exception'')"
  by (simp add: login_def scrape_def scrape_try_def)

theorem login_failure_fails_job_witness:
  "scrape env_login_fail [''food'', ''dubai''] 5
     = (Inl (PyException ''Failed to login to LinkedIn''), [NewDriver, LoginCall, QuitCall])"
proof -
  have a: "login_form env_login_fail = None
      \<and> login_url env_login_fail = Inr ''https://www.linkedin.com/checkpoint/challenge''
      \<and> login_url_again env_login_fail = Inr ''https://www.linkedin.com/checkpoint/challenge''
      \<and> service_error env_login_fail = None \<and> chrome_error env_login_fail = None
      \<and> initial_url env_login_fail = Inr ''data:,''"
    by (simp add: env_login_fail_def env_ok_def)
  have b: "\<not> py_in ''feed'' ''https://www.linkedin.com/checkpoint/challenge''"
    by code_simp
  have c: "\<not> py_in ''linkedin.com/in/'' ''https://www.linkedin.com/checkpoint/challenge''"
    by code_simp
  show ?thesis
    using login_failure_fails_job [of env_login_fail
            "''https://www.linkedin.com/checkpoint/challenge''" "''data:,''" "[''food'', ''dubai'']" 5]
          a b c
    by blast
qed

text \<open>
  The claim C9 as it is written fails on the class of the error: it is the built-in
  \<open>Exception\<close>, not an \<open>AuthenticationError\<close>.
\<close>

theorem login_failure_counterexample:
  "fst (scrape env_login_fail [''food'', ''dubai''] 5)
     = Inl (PyException ''Failed to login to LinkedIn'')
   \<and> class_name (PyException ''Failed to login to LinkedIn'') \<noteq> ''AuthenticationError''"
proof -
  have "scrape env_login_fail [''food'', ''dubai''] 5
     = (Inl (PyException ''Failed to login to LinkedIn''), [NewDriver, LoginCall, QuitCall])"
    by code_simp
  then show ?thesis by simp
qed

section \<open>Properties of the keyword fallback\<close>

lemma fallback_extraction_example:
  "fallback_extraction ''i want the leads they are doing the food business in dubai''
     = [''food'', ''business'', ''dubai'']"
  by code_simp

lemma default_pair_ok:
  "\<forall>w \<in> set [''business'', ''professional'']. w \<notin> stop_words \<and> 2 < length w"
  by (simp add: stop_words_def)

lemma fallback_extraction_length:
  "1 \<le> length (fallback_extraction prompt) \<and> length (fallback_extraction prompt) \<le> 7"
proof -
  let ?ks = "filter (\<lambda>w. w \<notin> stop_words \<and> length w > 2) (py_split_ws (py_lower prompt))"
  show ?thesis
  proof (cases "?ks = []")
    case True
    then show ?thesis by (simp add: fallback_extraction_def)
  next
    case False
    then have "1 \<le> length ?ks" by (cases ?ks) simp_all
    with False show ?thesis by (simp add: fallback_extraction_def Let_def)
  qed
qed

lemma fallback_extraction_tokens:
  "\<forall>w \<in> set (fallback_extraction prompt). w \<notin> stop_words \<and> 2 < length w"
proof -
  let ?ks = "filter (\<lambda>w. w \<notin> stop_words \<and> length w > 2) (py_split_ws (py_lower prompt))"
  have "\<forall>w \<in> set (take 7 ?ks). w \<notin> stop_words \<and> 2 < length w"
    using set_take_subset [of 7 ?ks] by auto
  then show ?thesis
    using default_pair_ok unfolding fallback_extraction_def Let_def
    by (cases "?ks = []") presburger+
qed

lemma take_filter_subseq: "subseq (take n (filter P xs)) xs"
proof -
  have "subseq (take n (filter P xs)) (filter P xs)"
    by (rule prefix_imp_subseq) (rule take_is_prefix)
  moreover have "subseq (filter P xs) xs" by simp
  ultimately show ?thesis by (rule subseq_order.trans)
qed

text \<open>
  C7. With the extraction service unavailable (its call raises), \<open>extract_keywords\<close>
  returns between 1 and 7 tokens. Either they are the default pair business, professional,
  which happens exactly when no token survives, or they are the first tokens (at most 7),
  in order, of the lowercased prompt split on whitespace from which every stop word and
  every token of length at most 2 has been dropped. No returned token is a stop word or
  has length at most 2. The prompt of the example yields food, business, dubai.
\<close>

theorem extract_keywords_fallback:
  "(let r = extract_keywords (Inl e) prompt;
        survivors = filter (\<lambda>w. w \<notin> stop_words \<and> 2 < length w) (py_split_ws (py_lower prompt))
    in 1 \<le> length r \<and> length r \<le> 7
       \<and> (\<forall>w \<in> set r. w \<notin> stop_words \<and> 2 < length w)
       \<and> (survivors \<noteq> [] \<longrightarrow> r = take 7 survivors \<and> subseq r (py_split_ws (py_lower prompt)))
       \<and> (survivors = [] \<longrightarrow> r = [''business'', ''professional'']))
   \<and> extract_keywords (Inl e) ''i want the leads they are doing the food business in dubai''
       = [''food'', ''business'', ''dubai'']"
proof -
  have fb: "\<And>p. extract_keywords (Inl e) p = fallback_extraction p"
    by (simp add: extract_keywords_def)
  let ?ws = "py_split_ws (py_lower prompt)"
  let ?ks = "filter (\<lambda>w. w \<notin> stop_words \<and> 2 < length w) ?ws"
  have a: "?ks \<noteq> [] \<longrightarrow> fallback_extraction prompt = take 7 ?ks"
    by (simp add: fallback_extraction_def Let_def)
  have b: "?ks \<noteq> [] \<longrightarrow> subseq (fallback_extraction prompt) ?ws"
    using a take_filter_subseq [of 7 _ ?ws] by presburger
  have c: "?ks = [] \<longrightarrow> fallback_extraction prompt = [''business'', ''professional'']"
    unfolding fallback_extraction_def Let_def by presburger
  show ?thesis
    unfolding Let_def fb
    using fallback_extraction_length [of prompt] fallback_extraction_tokens [of prompt]
          a b c fallback_extraction_example
    by blast
qed

theorem extract_keywords_fallback_witness:
  "extract_keywords (Inl (LibraryError ''ServiceUnavailable'')) ''Tech Companies in London''
     = [''tech'', ''companies'', ''london'']
   \<and> extract_keywords (Inl (LibraryError ''ServiceUnavailable'')) ''I want the leads''
     = [''business'', ''professional'']"
proof -
  have a: "filter (\<lambda>w. w \<notin> stop_words \<and> 2 < length w)
             (py_split_ws (py_lower ''Tech Companies in London''))
           = [''tech'', ''companies'', ''london'']"
    by code_simp
  have b: "filter (\<lambda>w. w \<notin> stop_words \<and> 2 < length w)
             (py_split_ws (py_lower ''I want the leads'')) = []"
    by code_simp
  have c: "take 7 [''tech'', ''companies'', ''london''] = [''tech'', ''companies'', ''london'']"
    by code_simp
  show ?thesis
    using extract_keywords_fallback [of "LibraryError ''ServiceUnavailable''" "''Tech Companies in London''"]
          extract_keywords_fallback [of "LibraryError ''ServiceUnavailable''" "''I want the leads''"]
    unfolding Let_def a b c by blast
qed

section \<open>Properties of the construction\<close>

text \<open>
  C10. Constructing the scraper fails with a ValueError exactly when the e-mail address or
  the password is missing (absent or empty) both from the argument and from the process
  environment; a scraper that was constructed holds a non-empty e-mail address and a
  non-empty password.
\<close>

theorem scraper_init_credentials:
  "((\<exists>m. scraper_init email password getenv = Inl (ValueError m))
      \<longleftrightarrow> (falsy email \<and> falsy (getenv ''LINKEDIN_EMAIL''))
          \<or> (falsy password \<and> falsy (getenv ''LINKEDIN_PASSWORD'')))
   \<and> (\<forall>s. scraper_init email password getenv = Inr s
          \<longrightarrow> linkedin_email s \<noteq> [] \<and> linkedin_password s \<noteq> [])
   \<and> (\<forall>x. scraper_init email password getenv = Inl x \<longrightarrow> class_name x = ''ValueError'')"
  by (auto simp: scraper_init_def py_or_def falsy_def Let_def split: option.splits if_splits)

theorem scraper_init_credentials_witness:
  "scraper_init None (Some ''pw'') (\<lambda>k. if k = ''LINKEDIN_EMAIL'' then Some [] else None)
     = Inl (ValueError
         ''LINKEDIN_EMAIL and LINKEDIN_PASSWORD must be provided or set in environment variables'')
   \<and> scraper_init (Some ''a@b.c'') None (\<lambda>k. if k = ''LINKEDIN_PASSWORD'' then Some ''pw'' else None)
     = Inr \<lparr>linkedin_email = ''a@b.c'', linkedin_password = ''pw''\<rparr>"
  using scraper_init_credentials
          [of None "Some ''pw''" "\<lambda>k. if k = ''LINKEDIN_EMAIL'' then Some [] else None"]
        scraper_init_credentials
          [of "Some ''a@b.c''" None "\<lambda>k. if k = ''LINKEDIN_PASSWORD'' then Some ''pw'' else None"]
  by (simp add: scraper_init_def py_or_def falsy_def)

end
